theory Spec2Isabelle
  imports Complex_Main "HOL-Library.Multiset"
begin

section \<open>Lead utilities of ClientHunter (src/hooks/usePlacesSearch.js)\<close>

text \<open>
  The utilities are pure JavaScript functions over strings, numbers and place objects.
  A JavaScript string is modelled as a \<^typ>\<open>string\<close>; a value that may be
  \<^verbatim>\<open>undefined\<close> is an \<^typ>\<open>'a option\<close> with \<^term>\<open>None\<close> for the absent value.
\<close>

subsection \<open>Characters, truthiness and the regular expressions of the source\<close>

text \<open>The class \<^verbatim>\<open>\d\<close> of a JavaScript regular expression: the ten ASCII digits.\<close>

definition is_digit :: "char \<Rightarrow> bool" where
  "is_digit c = (c \<in> set ''0123456789'')"

text \<open>
  The class \<^verbatim>\<open>\s\<close>, on the code units a \<^typ>\<open>char\<close> holds: tab, line feed,
  vertical tab, form feed, carriage return, space and the no-break space.
\<close>

definition is_space :: "char \<Rightarrow> bool" where
  "is_space c = (of_char c \<in> set [9, 10, 11, 12, 13, 32, 160 :: nat])"

text \<open>Truthiness of a string that may be absent: \<^verbatim>\<open>undefined\<close> and \<^verbatim>\<open>''\<close> are falsy.\<close>

fun truthy :: "string option \<Rightarrow> bool" where
  "truthy None = False"
| "truthy (Some s) = (s \<noteq> [])"

text \<open>\<^verbatim>\<open>a || b\<close> on strings that may be absent.\<close>

definition js_or :: "string option \<Rightarrow> string option \<Rightarrow> string option" where
  "js_or a b = (if truthy a then a else b)"

text \<open>
  The anchored patterns of \<^verbatim>\<open>mobilePatterns\<close> are sequences of items: one character
  of a class, a class repeated exactly \<open>n\<close> times, or an optional character of a class.
  \<^term>\<open>consume\<close> gives every remainder an item can leave (the greedy choice first), and
  a pattern matches when some choice of remainders ends at the end of the string.
\<close>

datatype cclass = Lit char | Digit | Space

fun in_class :: "cclass \<Rightarrow> char \<Rightarrow> bool" where
  "in_class (Lit a) c = (c = a)"
| "in_class Digit c = is_digit c"
| "in_class Space c = is_space c"

datatype item = One cclass | Rep cclass nat | Opt cclass

fun consume :: "item \<Rightarrow> string \<Rightarrow> string list" where
  "consume (One k) s = (case s of [] \<Rightarrow> [] | c # r \<Rightarrow> if in_class k c then [r] else [])"
| "consume (Rep k n) s =
     (if n \<le> length s \<and> list_all (in_class k) (take n s) then [drop n s] else [])"
| "consume (Opt k) s = (case s of [] \<Rightarrow> [s] | c # r \<Rightarrow> if in_class k c then [r, s] else [s])"

fun matches :: "item list \<Rightarrow> string \<Rightarrow> bool" where
  "matches [] s = (s = [])"
| "matches (i # is) s = list_ex (matches is) (consume i s)"

text \<open>\<^verbatim>\<open>mobilePatterns\<close>, in the order of the source.\<close>

definition mobilePatterns :: "item list list" where
  "mobilePatterns =
     [ [One (Lit CHR ''0''), One (Lit CHR ''7''), Rep Digit 8],
       [One (Lit CHR ''+''), One (Lit CHR ''9''), One (Lit CHR ''4''), One (Lit CHR ''7''),
        Rep Digit 8],
       [One (Lit CHR ''9''), One (Lit CHR ''4''), One (Lit CHR ''7''), Rep Digit 8],
       [One (Lit CHR ''0''), One (Lit CHR ''7''), Rep Digit 1, Opt Space, Rep Digit 3,
        Opt Space, Rep Digit 4] ]"

subsection \<open>Phone validation and formatting\<close>

text \<open>\<^verbatim>\<open>phone.replace(/[\s\-\(\)]/g, '')\<close>\<close>

definition strip_separators :: "string \<Rightarrow> string" where
  "strip_separators s = filter (\<lambda>c. \<not> (is_space c \<or> c \<in> set ''-()'')) s"

definition isValidSriLankanMobile :: "string option \<Rightarrow> bool" where
  "isValidSriLankanMobile phone =
     (case phone of
        None \<Rightarrow> False
      | Some s \<Rightarrow>
          if s = [] then False
          else (let cleanPhone = strip_separators s
                in list_ex (\<lambda>pattern. matches pattern cleanPhone) mobilePatterns))"

text \<open>\<^verbatim>\<open>phone.replace(/[^\d+]/g, '')\<close> and \<^verbatim>\<open>cleanPhone.replace(/^\+/, '')\<close>\<close>

definition keep_digits_plus :: "string \<Rightarrow> string" where
  "keep_digits_plus s = filter (\<lambda>c. is_digit c \<or> c = CHR ''+'') s"

fun drop_leading_plus :: "string \<Rightarrow> string" where
  "drop_leading_plus [] = []"
| "drop_leading_plus (c # r) = (if c = CHR ''+'' then r else c # r)"

definition startsWith :: "string \<Rightarrow> string \<Rightarrow> bool" where
  "startsWith s p = (take (length p) s = p)"

definition formatPhoneForWhatsApp :: "string option \<Rightarrow> string" where
  "formatPhoneForWhatsApp phone =
     (case phone of
        None \<Rightarrow> []
      | Some s \<Rightarrow>
          if s = [] then []
          else (let c1 = drop_leading_plus (keep_digits_plus s);
                    c2 = (if startsWith c1 ''0'' then ''94'' @ drop 1 c1 else c1);
                    c3 = (if \<not> startsWith c2 ''94'' then ''94'' @ c2 else c2)
                in c3))"

text \<open>\<^verbatim>\<open>formatPhoneForDisplay\<close>: the slices are \<^verbatim>\<open>slice(0, 3)\<close>, \<^verbatim>\<open>slice(3, 6)\<close>, \<^verbatim>\<open>slice(6)\<close>.\<close>

definition formatPhoneForDisplay :: "string option \<Rightarrow> string" where
  "formatPhoneForDisplay phone =
     (case phone of
        None \<Rightarrow> ''No phone''
      | Some s \<Rightarrow>
          if s = [] then ''No phone''
          else (let cleanPhone = filter is_digit s
                in if length cleanPhone = 10 \<and> startsWith cleanPhone ''0''
                   then take 3 cleanPhone @ '' '' @ take 3 (drop 3 cleanPhone) @ '' ''
                        @ drop 6 cleanPhone
                   else s))"

subsection \<open>Lead score\<close>

datatype score = Hot | Warm | Cold

text \<open>
  \<^verbatim>\<open>x > n\<close> on a number that may be \<^verbatim>\<open>undefined\<close>: the absent value converts to NaN,
  and every comparison with NaN is false.
\<close>

fun js_gt :: "'a::linorder option \<Rightarrow> 'a \<Rightarrow> bool" where
  "js_gt None n = False"
| "js_gt (Some x) n = (x > n)"

definition calculateLeadScore :: "int option \<Rightarrow> real option \<Rightarrow> score" where
  "calculateLeadScore ratingCount rating =
     (if js_gt ratingCount 100 \<and> js_gt rating 4.0 then Hot
      else if js_gt ratingCount 50 then Warm
      else Cold)"

subsection \<open>Place records and qualified leads\<close>

text \<open>
  The object \<^verbatim>\<open>getPlaceDetails\<close> resolves with. Every field copied from the service
  may be \<^verbatim>\<open>undefined\<close>. A lead is the place spread into a new object with the two
  derived fields \<^verbatim>\<open>leadScore\<close> and \<^verbatim>\<open>formattedWhatsapp\<close>, so it is the record
  extended by them.
\<close>

record place =
  id' :: string
  placeId :: string
  displayName :: "string option"
  rating :: "real option"
  userRatingCount :: "int option"
  nationalPhoneNumber :: "string option"
  internationalPhoneNumber :: "string option"
  websiteUri :: "string option"
  businessStatus :: "string option"
  photos :: "string list option"
  types :: "string list option"
  formattedAddress :: "string option"
  location :: "(real \<times> real) option"

record lead = place +
  leadScore :: score
  formattedWhatsapp :: string

text \<open>\<^verbatim>\<open>place.userRatingCount || 0\<close>: the absent count and the count 0 both give 0.\<close>

definition count_or_zero :: "int option \<Rightarrow> int" where
  "count_or_zero c = (case c of None \<Rightarrow> 0 | Some n \<Rightarrow> n)"

text \<open>
  \<^verbatim>\<open>place.nationalPhoneNumber || place.internationalPhoneNumber\<close>, the argument of
  \<^verbatim>\<open>formatPhoneForWhatsApp\<close> in the map callback; the filter callback appends
  \<^verbatim>\<open>|| ''\<close>, which only turns an absent result into the empty string.
\<close>

definition chosen_phone :: "'a place_scheme \<Rightarrow> string option" where
  "chosen_phone p = js_or (nationalPhoneNumber p) (internationalPhoneNumber p)"

text \<open>The callback of \<^verbatim>\<open>.filter\<close>, with its four early returns in order.\<close>

definition suitable :: "'a place_scheme \<Rightarrow> bool" where
  "suitable p =
     (let ratingCount = count_or_zero (userRatingCount p)
      in if ratingCount < 10 then False
         else if truthy (websiteUri p) then False
         else if truthy (businessStatus p) \<and> businessStatus p \<noteq> Some ''OPERATIONAL'' then False
         else (let phone = js_or (chosen_phone p) (Some [])
               in if \<not> isValidSriLankanMobile phone then False else True))"

text \<open>The callback of \<^verbatim>\<open>.map\<close>.\<close>

definition enrich :: "place \<Rightarrow> lead" where
  "enrich p =
     place.extend p
       (lead.fields (calculateLeadScore (userRatingCount p) (rating p))
                    (formatPhoneForWhatsApp (chosen_phone p)))"

subsection \<open>The sort\<close>

text \<open>
  \<^verbatim>\<open>Array.prototype.sort\<close> with a comparator is a stable sort (ECMAScript 2019 and
  later), given here as the stable insertion sort: an element goes in front of the first
  element it does not have to follow. A comparator result that is NaN counts as 0.
  The comparator of the source is \<^verbatim>\<open>(a, b) => b.userRatingCount - a.userRatingCount\<close>;
  the difference is NaN (\<^term>\<open>None\<close>) when a count is absent.
\<close>

definition by_count_desc :: "lead \<Rightarrow> lead \<Rightarrow> int option" where
  "by_count_desc a b =
     (case (userRatingCount b, userRatingCount a) of
        (Some y, Some x) \<Rightarrow> Some (y - x)
      | _ \<Rightarrow> None)"

definition compare_result :: "int option \<Rightarrow> int" where
  "compare_result v = (case v of None \<Rightarrow> 0 | Some n \<Rightarrow> n)"

fun js_insert :: "('a \<Rightarrow> 'a \<Rightarrow> int option) \<Rightarrow> 'a \<Rightarrow> 'a list \<Rightarrow> 'a list" where
  "js_insert cmp x [] = [x]"
| "js_insert cmp x (y # ys) =
     (if compare_result (cmp x y) \<le> 0 then x # y # ys else y # js_insert cmp x ys)"

definition js_sort :: "('a \<Rightarrow> 'a \<Rightarrow> int option) \<Rightarrow> 'a list \<Rightarrow> 'a list" where
  "js_sort cmp xs = foldr (js_insert cmp) xs []"

subsection \<open>filterSuitableLeads\<close>

text \<open>
  The argument is any JavaScript value. An object is a place record; an array holds
  values of any kind.
\<close>

datatype js_value =
    JUndefined
  | JNull
  | JBool bool
  | JNum int
  | JStr string
  | JPlace place
  | JArray "js_value list"

datatype js_error = TypeError

text \<open>\<^verbatim>\<open>!places\<close>\<close>

fun falsy :: "js_value \<Rightarrow> bool" where
  "falsy JUndefined = True"
| "falsy JNull = True"
| "falsy (JBool b) = (\<not> b)"
| "falsy (JNum n) = (n = 0)"
| "falsy (JStr s) = (s = [])"
| "falsy (JPlace p) = False"
| "falsy (JArray vs) = False"

text \<open>
  The filter callback on one element. Reading \<^verbatim>\<open>place.userRatingCount\<close> of
  \<^verbatim>\<open>null\<close> or \<^verbatim>\<open>undefined\<close> throws a TypeError. On a boolean, a number, a string
  or an array the property is \<^verbatim>\<open>undefined\<close>, the count is 0 and the callback returns
  false at its first test.
\<close>

fun keep_element :: "js_value \<Rightarrow> js_error + place option" where
  "keep_element JUndefined = Inl TypeError"
| "keep_element JNull = Inl TypeError"
| "keep_element (JPlace p) = Inr (if suitable p then Some p else None)"
| "keep_element v = Inr None"

text \<open>\<^verbatim>\<open>places.filter(...)\<close>: the elements in order; a throwing callback ends the call.\<close>

fun filter_elements :: "js_value list \<Rightarrow> js_error + place list" where
  "filter_elements [] = Inr []"
| "filter_elements (v # vs) =
     (case keep_element v of
        Inl e \<Rightarrow> Inl e
      | Inr k \<Rightarrow>
          (case filter_elements vs of
             Inl e \<Rightarrow> Inl e
           | Inr ps \<Rightarrow> Inr (case k of None \<Rightarrow> ps | Some p \<Rightarrow> p # ps)))"

definition filterSuitableLeads :: "js_value \<Rightarrow> js_error + lead list" where
  "filterSuitableLeads places =
     (if falsy places then Inr []
      else case places of
             JArray vs \<Rightarrow>
               (case filter_elements vs of
                  Inl e \<Rightarrow> Inl e
                | Inr ps \<Rightarrow> Inr (js_sort by_count_desc (map enrich ps)))
           | _ \<Rightarrow> Inr [])"

subsection \<open>fetchAllPages\<close>

text \<open>
  The places service calls \<^verbatim>\<open>handleResults\<close> once for the first page and once more
  after each \<^verbatim>\<open>pagination.nextPage()\<close>. A response is the results of the page, its
  status and whether \<^verbatim>\<open>pagination && pagination.hasNextPage\<close> holds. The promise is
  resolved with the accumulated results, rejected with an error message, or still
  pending when the service has not answered.
\<close>

datatype status =
    OK | ZERO_RESULTS | INVALID_REQUEST | NOT_FOUND | OVER_QUERY_LIMIT | REQUEST_DENIED
  | UNKNOWN_ERROR

fun status_code :: "status \<Rightarrow> string" where
  "status_code OK = ''OK''"
| "status_code ZERO_RESULTS = ''ZERO_RESULTS''"
| "status_code INVALID_REQUEST = ''INVALID_REQUEST''"
| "status_code NOT_FOUND = ''NOT_FOUND''"
| "status_code OVER_QUERY_LIMIT = ''OVER_QUERY_LIMIT''"
| "status_code REQUEST_DENIED = ''REQUEST_DENIED''"
| "status_code UNKNOWN_ERROR = ''UNKNOWN_ERROR''"

record 'a response =
  results :: "'a list"
  page_status :: status
  hasNextPage :: bool

datatype 'a promise = Resolved "'a list" | Rejected string | Pending

fun handleResults :: "'a list \<Rightarrow> 'a response list \<Rightarrow> 'a promise" where
  "handleResults allResults [] = Pending"
| "handleResults allResults (r # rs) =
     (if page_status r = OK then
        (let allResults' = allResults @ results r
         in if hasNextPage r then handleResults allResults' rs
            else Resolved allResults')
      else if page_status r = ZERO_RESULTS then Resolved allResults
      else Rejected (''Places API Error: '' @ status_code (page_status r)))"

definition fetchAllPages :: "'a response list \<Rightarrow> 'a promise" where
  "fetchAllPages responses = handleResults [] responses"

subsection \<open>Vocabulary of the statements\<close>

text \<open>
  The two shapes a cleaned mobile number has: the local form, \<open>07\<close> and eight digits,
  and the international form, \<open>947\<close> and eight digits.
\<close>

definition local_shape :: "string \<Rightarrow> bool" where
  "local_shape c = (length c = 10 \<and> take 2 c = ''07'' \<and> list_all is_digit (drop 2 c))"

definition intl_shape :: "string \<Rightarrow> bool" where
  "intl_shape c = (length c = 11 \<and> take 3 c = ''947'' \<and> list_all is_digit (drop 3 c))"

text \<open>
  The key the comparator sorts by when both counts are present: the count, negated, so
  that ascending keys are descending counts.
\<close>

definition neg_count :: "lead \<Rightarrow> int" where
  "neg_count l = - count_or_zero (userRatingCount l)"

subsection \<open>Example records\<close>

text \<open>
  A cafe with a mobile number in both phone fields; a salon with only the international
  field; a bakery with only the national field; and a business whose national field is
  a landline while its international field is a mobile number.
\<close>

definition cafe :: place where
  "cafe = \<lparr> id' = ''p1'', placeId = ''p1'', displayName = Some ''Cafe'', rating = Some 4.2,
     userRatingCount = Some 120, nationalPhoneNumber = Some ''077 123 4567'',
     internationalPhoneNumber = Some ''+94 77 123 4567'', websiteUri = None,
     businessStatus = Some ''OPERATIONAL'', photos = None, types = Some [''cafe''],
     formattedAddress = Some ''Colombo'', location = Some (6.9, 79.8) \<rparr>"

definition salon :: place where
  "salon = cafe \<lparr> id' := ''p2'', placeId := ''p2'', displayName := Some ''Salon'',
     rating := Some 3.5, userRatingCount := Some 20,
     nationalPhoneNumber := None, internationalPhoneNumber := Some ''+94 71 111 1111'' \<rparr>"

definition bakery :: place where
  "bakery = cafe \<lparr> id' := ''p3'', placeId := ''p3'', displayName := Some ''Bakery'',
     rating := None, userRatingCount := Some 20,
     nationalPhoneNumber := Some ''0722222222'', internationalPhoneNumber := None \<rparr>"

definition landline_first :: place where
  "landline_first = cafe \<lparr> nationalPhoneNumber := Some ''011 234 5678'' \<rparr>"

section \<open>Phone numbers\<close>

subsection \<open>What the mobile patterns accept\<close>

lemma is_digit_not_space: "is_digit c \<Longrightarrow> \<not> is_space c"
  by (auto simp: is_digit_def is_space_def)

lemma is_digit_not_sep: "is_digit c \<Longrightarrow> c \<notin> set ''-()''"
  by (auto simp: is_digit_def)

lemma plus_not_space: "\<not> is_space CHR ''+''"
  by (simp add: is_space_def)

lemma matches_One: "matches (One k # ps) s = (\<exists>c r. s = c # r \<and> in_class k c \<and> matches ps r)"
  by (cases s) auto

lemma matches_Rep: "matches (Rep k n # ps) s =
   (n \<le> length s \<and> list_all (in_class k) (take n s) \<and> matches ps (drop n s))"
  by auto

lemma in_class_Digit: "in_class Digit = is_digit"
  by (rule ext) simp

lemma matches_Nil: "matches [] s = (s = [])"
  by simp

lemmas matches_unfold = matches_One matches_Rep matches_Nil in_class_Digit in_class.simps(1)


lemma matches_Opt_no_space:
  "list_all (\<lambda>c. \<not> is_space c) s \<Longrightarrow> matches (Opt Space # ps) s = matches ps s"
  by (cases s) auto

lemma no_space_drop: "list_all P s \<Longrightarrow> list_all P (drop n s)"
  by (auto simp: list_all_iff dest: in_set_dropD)

lemma all_take: "list_all P s \<Longrightarrow> list_all P (take n s)"
  by (auto simp: list_all_iff dest: in_set_takeD)

lemma all_take_drop: "list_all P (take n s) \<Longrightarrow> list_all P (drop n s) \<Longrightarrow> list_all P s"
  by (metis append_take_drop_id list_all_append)



lemma local_shape_iff:
  "local_shape c = (\<exists>r. c = ''07'' @ r \<and> length r = 8 \<and> list_all is_digit r)"
proof
  assume a: "local_shape c"
  then have "take 2 c @ drop 2 c = c" by simp
  with a have "c = ''07'' @ drop 2 c" by (simp add: local_shape_def)
  moreover from a have "length (drop 2 c) = 8" by (simp add: local_shape_def)
  moreover from a have "list_all is_digit (drop 2 c)" by (simp add: local_shape_def)
  ultimately show "\<exists>r. c = ''07'' @ r \<and> length r = 8 \<and> list_all is_digit r" by blast
next
  assume "\<exists>r. c = ''07'' @ r \<and> length r = 8 \<and> list_all is_digit r"
  then show "local_shape c" by (auto simp: local_shape_def)
qed

lemma intl_shape_iff:
  "intl_shape c = (\<exists>r. c = ''947'' @ r \<and> length r = 8 \<and> list_all is_digit r)"
proof
  assume a: "intl_shape c"
  then have "take 3 c @ drop 3 c = c" by simp
  with a have "c = ''947'' @ drop 3 c" by (simp add: intl_shape_def)
  moreover from a have "length (drop 3 c) = 8" by (simp add: intl_shape_def)
  moreover from a have "list_all is_digit (drop 3 c)" by (simp add: intl_shape_def)
  ultimately show "\<exists>r. c = ''947'' @ r \<and> length r = 8 \<and> list_all is_digit r" by blast
next
  assume "\<exists>r. c = ''947'' @ r \<and> length r = 8 \<and> list_all is_digit r"
  then show "intl_shape c" by (auto simp: intl_shape_def)
qed

lemma pattern1: "matches [One (Lit CHR ''0''), One (Lit CHR ''7''), Rep Digit 8] c = local_shape c"
  by (simp only: matches_unfold) (auto simp: local_shape_iff)

lemma pattern3: "matches [One (Lit CHR ''9''), One (Lit CHR ''4''), One (Lit CHR ''7''), Rep Digit 8] c = intl_shape c"
  by (simp only: matches_unfold) (auto simp: intl_shape_iff)

lemma pattern2: "matches [One (Lit CHR ''+''), One (Lit CHR ''9''), One (Lit CHR ''4''), One (Lit CHR ''7''), Rep Digit 8] c
   = (\<exists>r. c = CHR ''+'' # r \<and> intl_shape r)"
  by (simp only: matches_unfold) (auto simp: intl_shape_iff)

lemma pattern4:
  assumes ns: "list_all (\<lambda>c. \<not> is_space c) c"
  shows "matches [One (Lit CHR ''0''), One (Lit CHR ''7''), Rep Digit 1, Opt Space, Rep Digit 3,
        Opt Space, Rep Digit 4] c = local_shape c"
proof
  assume m: "matches [One (Lit CHR ''0''), One (Lit CHR ''7''), Rep Digit 1, Opt Space, Rep Digit 3,
        Opt Space, Rep Digit 4] c"
  then obtain r where c: "c = ''07'' @ r"
    and r: "matches [Rep Digit 1, Opt Space, Rep Digit 3, Opt Space, Rep Digit 4] r"
    by (simp only: matches_unfold) auto
  from ns c have nsr: "list_all (\<lambda>c. \<not> is_space c) r" by simp
  from r have l1: "1 \<le> length r" and d1: "list_all is_digit (take 1 r)"
    and r1: "matches [Opt Space, Rep Digit 3, Opt Space, Rep Digit 4] (drop 1 r)"
    by (simp_all only: matches_Rep in_class_Digit)
  have ns1: "list_all (\<lambda>c. \<not> is_space c) (drop 1 r)" by (rule no_space_drop[OF nsr])
  from r1 ns1 have r2: "matches [Rep Digit 3, Opt Space, Rep Digit 4] (drop 1 r)"
    by (simp only: matches_Opt_no_space)
  then have l2: "3 \<le> length (drop 1 r)" and d2: "list_all is_digit (take 3 (drop 1 r))"
    and r3: "matches [Opt Space, Rep Digit 4] (drop 3 (drop 1 r))"
    by (simp_all only: matches_Rep in_class_Digit)
  have ns2: "list_all (\<lambda>c. \<not> is_space c) (drop 3 (drop 1 r))" by (rule no_space_drop[OF ns1])
  from r3 ns2 have r4: "matches [Rep Digit 4] (drop 3 (drop 1 r))"
    by (simp only: matches_Opt_no_space)
  then have l3: "length (drop 3 (drop 1 r)) = 4" and d3: "list_all is_digit (drop 3 (drop 1 r))"
    by (simp_all only: matches_unfold) auto
  from l3 have len: "length r = 8" by simp
  from d2 d3 have "list_all is_digit (drop 1 r)" by (rule all_take_drop)
  with d1 have "list_all is_digit r" by (rule all_take_drop)
  with c len show "local_shape c" by (auto simp: local_shape_iff)
next
  assume "local_shape c"
  then obtain r where c: "c = ''07'' @ r" and len: "length r = 8" and d: "list_all is_digit r"
    by (auto simp: local_shape_iff)
  have nsr: "list_all (\<lambda>c. \<not> is_space c) r"
    using d by (auto simp: list_all_iff is_digit_not_space)
  have a: "matches [Rep Digit 4] (drop 3 (drop 1 r))"
    unfolding matches_unfold using len d by (simp add: no_space_drop)
  have b: "matches [Opt Space, Rep Digit 4] (drop 3 (drop 1 r))"
    using a no_space_drop[OF no_space_drop[OF nsr]] by (simp only: matches_Opt_no_space)
  have e: "matches [Rep Digit 3, Opt Space, Rep Digit 4] (drop 1 r)"
    unfolding matches_Rep in_class_Digit using b len d by (simp add: no_space_drop all_take)
  have f: "matches [Opt Space, Rep Digit 3, Opt Space, Rep Digit 4] (drop 1 r)"
    using e no_space_drop[OF nsr] by (simp only: matches_Opt_no_space)
  have g: "matches [Rep Digit 1, Opt Space, Rep Digit 3, Opt Space, Rep Digit 4] r"
    unfolding matches_Rep in_class_Digit using f len d by (simp add: all_take)
  show "matches [One (Lit CHR ''0''), One (Lit CHR ''7''), Rep Digit 1, Opt Space, Rep Digit 3,
        Opt Space, Rep Digit 4] c"
    unfolding matches_One in_class.simps using g c by simp
qed

lemma strip_no_space: "list_all (\<lambda>c. \<not> is_space c) (strip_separators s)"
  by (simp add: strip_separators_def list_all_iff)

lemma valid_shape:
  "isValidSriLankanMobile (Some s) =
     (local_shape (strip_separators s) \<or> intl_shape (strip_separators s)
      \<or> (\<exists>r. strip_separators s = CHR ''+'' # r \<and> intl_shape r))"
proof (cases "s = []")
  case True
  then show ?thesis
    by (simp add: isValidSriLankanMobile_def strip_separators_def local_shape_iff intl_shape_iff)
next
  case False
  then show ?thesis
    unfolding isValidSriLankanMobile_def mobilePatterns_def
    by (simp only: option.case if_False Let_def list_ex_Nil_iff list_ex_Cons_iff pattern1 pattern2 pattern3
          pattern4[OF strip_no_space]) blast
qed

lemma keep_strip:
  assumes "list_all (\<lambda>c. is_digit c \<or> c = CHR ''+'') (strip_separators s)"
  shows "keep_digits_plus s = strip_separators s"
proof -
  have "keep_digits_plus s = keep_digits_plus (strip_separators s)"
    unfolding keep_digits_plus_def strip_separators_def filter_filter
    by (rule filter_cong) (auto simp: is_digit_not_space plus_not_space dest: is_digit_not_sep)
  also have "\<dots> = strip_separators s"
    using assms unfolding keep_digits_plus_def by (simp add: list_all_iff)
  finally show ?thesis .
qed

lemma digit_chars: "is_digit CHR ''0''" "is_digit CHR ''9''" "is_digit CHR ''4''" "is_digit CHR ''7''"
  by (simp_all add: is_digit_def)

lemma format_local:
  assumes "local_shape (keep_digits_plus s)"
  shows "\<exists>r. formatPhoneForWhatsApp (Some s) = ''947'' @ r \<and> length r = 8 \<and> list_all is_digit r"
proof -
  from assms obtain r where k: "keep_digits_plus s = ''07'' @ r" and r: "length r = 8" "list_all is_digit r"
    by (auto simp: local_shape_iff)
  from k have "s \<noteq> []" by (auto simp: keep_digits_plus_def)
  then have "formatPhoneForWhatsApp (Some s) = ''947'' @ r"
    by (simp add: formatPhoneForWhatsApp_def k startsWith_def)
  with r show ?thesis by blast
qed

lemma format_intl:
  assumes "intl_shape (drop_leading_plus (keep_digits_plus s))"
  shows "\<exists>r. formatPhoneForWhatsApp (Some s) = ''947'' @ r \<and> length r = 8 \<and> list_all is_digit r"
proof -
  from assms obtain r where k: "drop_leading_plus (keep_digits_plus s) = ''947'' @ r"
    and r: "length r = 8" "list_all is_digit r"
    by (auto simp: intl_shape_iff)
  from k have "s \<noteq> []" by (auto simp: keep_digits_plus_def)
  then have "formatPhoneForWhatsApp (Some s) = ''947'' @ r"
    by (simp add: formatPhoneForWhatsApp_def k startsWith_def)
  with r show ?thesis by blast
qed

lemma valid_format:
  assumes "isValidSriLankanMobile (Some s)"
  shows "\<exists>r. formatPhoneForWhatsApp (Some s) = ''947'' @ r \<and> length r = 8 \<and> list_all is_digit r"
proof -
  from assms consider
      (loc) "local_shape (strip_separators s)"
    | (int) "intl_shape (strip_separators s)"
    | (plus) r where "strip_separators s = CHR ''+'' # r" "intl_shape r"
    unfolding valid_shape by blast
  then show ?thesis
  proof cases
    case loc
    then have "list_all (\<lambda>c. is_digit c \<or> c = CHR ''+'') (strip_separators s)"
      by (auto simp: local_shape_iff list_all_iff digit_chars)
    then have "keep_digits_plus s = strip_separators s" by (rule keep_strip)
    with loc have "local_shape (keep_digits_plus s)" by simp
    then show ?thesis by (rule format_local)
  next
    case int
    then have "list_all (\<lambda>c. is_digit c \<or> c = CHR ''+'') (strip_separators s)"
      by (auto simp: intl_shape_iff list_all_iff digit_chars)
    then have "keep_digits_plus s = strip_separators s" by (rule keep_strip)
    moreover from int have "drop_leading_plus (strip_separators s) = strip_separators s"
      by (auto simp: intl_shape_iff)
    ultimately have "intl_shape (drop_leading_plus (keep_digits_plus s))" using int by simp
    then show ?thesis by (rule format_intl)
  next
    case plus
    then have "list_all (\<lambda>c. is_digit c \<or> c = CHR ''+'') (strip_separators s)"
      by (auto simp: intl_shape_iff list_all_iff digit_chars)
    then have "keep_digits_plus s = strip_separators s" by (rule keep_strip)
    with plus have "intl_shape (drop_leading_plus (keep_digits_plus s))" by simp
    then show ?thesis by (rule format_intl)
  qed
qed

text \<open>
  C6. Every phone string that \<^const>\<open>isValidSriLankanMobile\<close> accepts is turned by
  \<^const>\<open>formatPhoneForWhatsApp\<close> into a string that starts with the country code 94 and
  has exactly 11 characters, all of them digits.
\<close>

theorem canonical_of_valid:
  "isValidSriLankanMobile (Some s) \<Longrightarrow>
     startsWith (formatPhoneForWhatsApp (Some s)) ''94'' \<and>
     length (formatPhoneForWhatsApp (Some s)) = 11 \<and>
     list_all is_digit (formatPhoneForWhatsApp (Some s))"
  using valid_format[of s] by (auto simp: startsWith_def digit_chars)

theorem canonical_of_valid_witness:
  "isValidSriLankanMobile (Some ''(077) 123-4567'') \<and>
   formatPhoneForWhatsApp (Some ''(077) 123-4567'') = ''94771234567'' \<and>
     startsWith (formatPhoneForWhatsApp (Some ''(077) 123-4567'')) ''94'' \<and>
     length (formatPhoneForWhatsApp (Some ''(077) 123-4567'')) = 11 \<and>
     list_all is_digit (formatPhoneForWhatsApp (Some ''(077) 123-4567''))"
proof -
  have v: "isValidSriLankanMobile (Some ''(077) 123-4567'')" by code_simp
  have f: "formatPhoneForWhatsApp (Some ''(077) 123-4567'') = ''94771234567''" by code_simp
  from v f canonical_of_valid[OF v] show ?thesis by blast
qed

subsection \<open>The characters of the canonical form\<close>

lemma keep_chars: "list_all (\<lambda>c. is_digit c \<or> c = CHR ''+'') (keep_digits_plus s)"
  by (simp add: keep_digits_plus_def list_all_iff)

lemma plus_not_digit: "\<not> is_digit CHR ''+''"
  by (simp add: is_digit_def)

lemma format_Some:
  "s \<noteq> [] \<Longrightarrow> formatPhoneForWhatsApp (Some s) =
     (let c1 = drop_leading_plus (keep_digits_plus s);
          c2 = (if startsWith c1 ''0'' then ''94'' @ drop 1 c1 else c1)
      in if \<not> startsWith c2 ''94'' then ''94'' @ c2 else c2)"
  by (simp add: formatPhoneForWhatsApp_def Let_def)

lemma format_core:
  fixes k :: string
  defines "c1 \<equiv> drop_leading_plus k"
  defines "c2 \<equiv> (if startsWith c1 ''0'' then ''94'' @ drop 1 c1 else c1)"
  defines "c3 \<equiv> (if \<not> startsWith c2 ''94'' then ''94'' @ c2 else c2)"
  shows "(CHR ''+'' \<in> set c3) = (CHR ''+'' \<in> set (drop 1 k))"
    and "set c3 \<subseteq> set ''94'' \<union> set k"
    and "c3 \<noteq> []"
proof -
  have a: "(CHR ''+'' \<in> set c1) = (CHR ''+'' \<in> set (drop 1 k))"
    unfolding c1_def by (cases k) auto
  have b: "(CHR ''+'' \<in> set c2) = (CHR ''+'' \<in> set c1)"
    unfolding c2_def by (cases c1) (auto simp: startsWith_def)
  have c: "(CHR ''+'' \<in> set c3) = (CHR ''+'' \<in> set c2)"
    unfolding c3_def by auto
  from a b c show "(CHR ''+'' \<in> set c3) = (CHR ''+'' \<in> set (drop 1 k))" by simp
  have "set c1 \<subseteq> set k" unfolding c1_def by (cases k) auto
  moreover have "set c2 \<subseteq> set ''94'' \<union> set c1"
    unfolding c2_def by (auto dest: in_set_dropD)
  moreover have "set c3 \<subseteq> set ''94'' \<union> set c2"
    unfolding c3_def by auto
  ultimately show "set c3 \<subseteq> set ''94'' \<union> set k" by blast
  show "c3 \<noteq> []" unfolding c3_def by (auto simp: startsWith_def)
qed

lemma format_plus:
  "(CHR ''+'' \<in> set (formatPhoneForWhatsApp (Some s))) = (CHR ''+'' \<in> set (drop 1 (keep_digits_plus s)))"
proof (cases "s = []")
  case True
  then show ?thesis by (simp add: formatPhoneForWhatsApp_def keep_digits_plus_def)
next
  case False
  then show ?thesis
    unfolding format_Some[OF False] Let_def by (rule_tac format_core(1))
qed

lemma format_chars:
  "list_all (\<lambda>c. is_digit c \<or> c = CHR ''+'') (formatPhoneForWhatsApp (Some s))"
proof (cases "s = []")
  case True
  then show ?thesis by (simp add: formatPhoneForWhatsApp_def)
next
  case False
  have "set (formatPhoneForWhatsApp (Some s)) \<subseteq> set ''94'' \<union> set (keep_digits_plus s)"
    unfolding format_Some[OF False] Let_def by (rule format_core(2))
  moreover have "\<forall>c \<in> set (keep_digits_plus s). is_digit c \<or> c = CHR ''+''"
    by (simp add: keep_digits_plus_def)
  ultimately show ?thesis
    unfolding list_all_iff using digit_chars by auto
qed

lemma format_empty: "(formatPhoneForWhatsApp (Some s) = []) = (s = [])"
proof (cases "s = []")
  case True
  then show ?thesis by (simp add: formatPhoneForWhatsApp_def)
next
  case False
  have "formatPhoneForWhatsApp (Some s) \<noteq> []"
    unfolding format_Some[OF False] Let_def by (rule format_core(3))
  with False show ?thesis by simp
qed

text \<open>
  C2, as the code has it. For every input string, \<^const>\<open>formatPhoneForWhatsApp\<close>
  returns a string of digits and plus signs only; the result is digit-only exactly when
  the input has no plus sign after its first digit-or-plus character (only one leading
  plus is dropped); and the result is empty only when the input is empty.
\<close>

theorem canonical_digits_or_plus:
  "list_all (\<lambda>c. is_digit c \<or> c = CHR ''+'') (formatPhoneForWhatsApp (Some raw)) \<and>
   list_all is_digit (formatPhoneForWhatsApp (Some raw))
     = (CHR ''+'' \<notin> set (drop 1 (keep_digits_plus raw))) \<and>
   (formatPhoneForWhatsApp (Some raw) = []) = (raw = [])"
proof -
  have "list_all is_digit (formatPhoneForWhatsApp (Some raw))
          = (CHR ''+'' \<notin> set (formatPhoneForWhatsApp (Some raw)))"
    using format_chars[of raw] unfolding list_all_iff by (auto simp: plus_not_digit)
  then show ?thesis by (simp only: format_plus format_chars format_empty simp_thms)
qed

text \<open>
  The input \<open>+94 77 123 4567\<close> has its only plus in front and gives a digit-only
  string; \<open>++\<close> keeps its second plus.
\<close>

theorem canonical_digits_or_plus_witness:
  "formatPhoneForWhatsApp (Some ''+94 77 123 4567'') = ''94771234567'' \<and>
   list_all is_digit (formatPhoneForWhatsApp (Some ''+94 77 123 4567'')) \<and>
   formatPhoneForWhatsApp (Some ''++'') = ''94+''"
proof -
  have a: "CHR ''+'' \<notin> set (drop 1 (keep_digits_plus ''+94 77 123 4567''))" by code_simp
  have b: "formatPhoneForWhatsApp (Some ''+94 77 123 4567'') = ''94771234567''" by code_simp
  have c: "formatPhoneForWhatsApp (Some ''++'') = ''94+''" by code_simp
  from canonical_digits_or_plus [of "''+94 77 123 4567''"] a b c show ?thesis by simp
qed

text \<open>
  The claim as stated fails: the plus inside \<open>1+2\<close> is kept, so the result \<open>941+2\<close>
  is not digit-only.
\<close>

theorem canonical_keeps_inner_plus:
  "formatPhoneForWhatsApp (Some ''1+2'') = ''941+2'' \<and>
   \<not> list_all is_digit (formatPhoneForWhatsApp (Some ''1+2''))"
  by code_simp

subsection \<open>Display form\<close>

lemma display_No_phone: "formatPhoneForDisplay (Some ''No phone'') = ''No phone''"
  by (simp add: formatPhoneForDisplay_def is_digit_def)

lemma space_not_digit: "\<not> is_digit CHR '' ''"
  by (simp add: is_digit_def)

lemma split_3_3: "take 3 c @ take 3 (drop 3 c) @ drop 6 c = c"
proof -
  have "drop 6 c = drop 3 (drop 3 c)" by simp
  then show ?thesis by (simp only: append_take_drop_id)
qed

lemma regroup:
  "filter is_digit (take 3 c @ '' '' @ take 3 (drop 3 c) @ '' '' @ drop 6 c) = filter is_digit c"
proof -
  have "c = take 3 c @ take 3 (drop 3 c) @ drop 6 c"
    by (simp only: split_3_3)
  then have "filter is_digit c = filter is_digit (take 3 c @ take 3 (drop 3 c) @ drop 6 c)"
    by simp
  then show ?thesis by (simp add: space_not_digit)
qed

lemma display_idem_Some:
  "formatPhoneForDisplay (Some (formatPhoneForDisplay (Some s))) = formatPhoneForDisplay (Some s)"
proof (cases "s = []")
  case True
  then show ?thesis by (simp add: display_No_phone) (simp add: formatPhoneForDisplay_def)
next
  case ne: False
  let ?c = "filter is_digit s"
  show ?thesis
  proof (cases "length ?c = 10 \<and> startsWith ?c ''0''")
    case True
    let ?g = "take 3 ?c @ '' '' @ take 3 (drop 3 ?c) @ '' '' @ drop 6 ?c"
    from True ne have g: "formatPhoneForDisplay (Some s) = ?g"
      by (simp add: formatPhoneForDisplay_def Let_def)
    have "filter is_digit ?g = filter is_digit ?c" by (rule regroup)
    then have fg: "filter is_digit ?g = ?c" by simp
    have "?g \<noteq> []" by simp
    then have "formatPhoneForDisplay (Some ?g) = ?g"
      using True unfolding formatPhoneForDisplay_def option.case Let_def fg by simp
    with g show ?thesis by simp
  next
    case False
    with ne have "formatPhoneForDisplay (Some s) = s"
      by (auto simp add: formatPhoneForDisplay_def)
    then show ?thesis by simp
  qed
qed

text \<open>
  C8. \<^const>\<open>formatPhoneForDisplay\<close> is idempotent on every input, absent or
  not; on a string of exactly ten digits that starts with 0 it gives the three groups
  of 3, 3 and 4 digits separated by single spaces, and a second application returns
  that same grouped string.
\<close>

theorem display_idempotent:
  "formatPhoneForDisplay (Some (formatPhoneForDisplay x)) = formatPhoneForDisplay x \<and>
   (length s = 10 \<and> list_all is_digit s \<and> startsWith s ''0'' \<longrightarrow>
      (\<exists>a b c. formatPhoneForDisplay (Some s) = a @ '' '' @ b @ '' '' @ c \<and>
          length a = 3 \<and> length b = 3 \<and> length c = 4 \<and> a @ b @ c = s) \<and>
      formatPhoneForDisplay (Some (formatPhoneForDisplay (Some s))) = formatPhoneForDisplay (Some s))"
proof (intro conjI impI)
  show "formatPhoneForDisplay (Some (formatPhoneForDisplay x)) = formatPhoneForDisplay x"
  proof (cases x)
    case None
    then show ?thesis by (simp add: display_No_phone) (simp add: formatPhoneForDisplay_def)
  next
    case (Some s)
    then show ?thesis by (simp only: display_idem_Some)
  qed
next
  assume h: "length s = 10 \<and> list_all is_digit s \<and> startsWith s ''0''"
  then have f: "filter is_digit s = s" by (simp add: list_all_iff)
  from h have ne: "s \<noteq> []" by auto
  have "formatPhoneForDisplay (Some s) = take 3 s @ '' '' @ take 3 (drop 3 s) @ '' '' @ drop 6 s"
    using h ne by (simp add: formatPhoneForDisplay_def f)
  moreover have "take 3 s @ take 3 (drop 3 s) @ drop 6 s = s"
    by (rule split_3_3)
  ultimately show "\<exists>a b c. formatPhoneForDisplay (Some s) = a @ '' '' @ b @ '' '' @ c \<and>
          length a = 3 \<and> length b = 3 \<and> length c = 4 \<and> a @ b @ c = s"
    using h by (intro exI[of _ "take 3 s"] exI[of _ "take 3 (drop 3 s)"] exI[of _ "drop 6 s"]) simp
next
  show "formatPhoneForDisplay (Some (formatPhoneForDisplay (Some s))) = formatPhoneForDisplay (Some s)"
    by (rule display_idem_Some)
qed

text \<open>
  The number \<open>0771234567\<close> is grouped as \<open>077 123 4567\<close>, which is returned as
  it is by a second call; the placeholder of an absent phone is a fixed point too.
\<close>

theorem display_idempotent_witness:
  "formatPhoneForDisplay (Some ''0771234567'') = ''077 123 4567'' \<and>
   formatPhoneForDisplay (Some ''077 123 4567'') = ''077 123 4567'' \<and>
   formatPhoneForDisplay (Some (formatPhoneForDisplay None)) = ''No phone''"
proof -
  have h: "length ''0771234567'' = 10 \<and> list_all is_digit ''0771234567'' \<and> startsWith ''0771234567'' ''0''"
    by code_simp
  have a: "formatPhoneForDisplay (Some ''0771234567'') = ''077 123 4567''" by code_simp
  have b: "formatPhoneForDisplay None = ''No phone''" by code_simp
  from display_idempotent [of "Some ''0771234567''" "''0771234567''"] display_idempotent [of None "[]"] h a b show ?thesis
    by simp
qed

section \<open>Lead score\<close>

text \<open>
  C4. \<^const>\<open>calculateLeadScore\<close> takes the first rule that matches: more than 100
  reviews and a rating above 4.0 give Hot, otherwise more than 50 reviews give Warm
  whatever the rating, otherwise Cold; an absent review count behaves as 0 and an absent
  rating fails the rating test. The four examples of the specification follow.
\<close>

theorem calculateLeadScore_rules:
  "calculateLeadScore c r =
     (if 100 < count_or_zero c \<and> (\<exists>x. r = Some x \<and> 4.0 < x) then Hot
      else if 50 < count_or_zero c then Warm
      else Cold)
   \<and> calculateLeadScore (Some 150) (Some 4.5) = Hot
   \<and> calculateLeadScore (Some 60) (Some 3.0) = Warm
   \<and> calculateLeadScore (Some 5) (Some 5.0) = Cold
   \<and> calculateLeadScore None None = Cold"
  by (cases c; cases r) (simp_all add: calculateLeadScore_def count_or_zero_def)

theorem calculateLeadScore_rules_witness:
  "calculateLeadScore (Some 101) (Some 4.0) = Warm
   \<and> calculateLeadScore (Some 101) None = Warm
   \<and> calculateLeadScore None (Some 5.0) = Cold"
  using calculateLeadScore_rules [of "Some 101" "Some 4.0"]
    calculateLeadScore_rules [of "Some 101" None]
    calculateLeadScore_rules [of None "Some 5.0"]
  by (simp add: count_or_zero_def)

section \<open>Qualification\<close>

subsection \<open>Filter, map and sort on an array of place records\<close>

lemma filter_elements_places: "filter_elements (map JPlace ps) = Inr (filter suitable ps)"
  by (induction ps) simp_all

lemma filterSuitableLeads_places:
  "filterSuitableLeads (JArray (map JPlace ps)) =
     Inr (js_sort by_count_desc (map enrich (filter suitable ps)))"
  by (simp add: filterSuitableLeads_def filter_elements_places)

lemma truncate_enrich: "place.truncate (enrich p) = p"
  by (simp add: enrich_def place.truncate_def place.extend_def)

lemma enrich_fields:
  "userRatingCount (enrich p) = userRatingCount p"
  "websiteUri (enrich p) = websiteUri p"
  "chosen_phone (enrich p) = chosen_phone p"
  "leadScore (enrich p) = calculateLeadScore (userRatingCount p) (rating p)"
  "formattedWhatsapp (enrich p) = formatPhoneForWhatsApp (chosen_phone p)"
  by (simp_all add: enrich_def place.extend_def lead.fields_def chosen_phone_def)

lemma valid_or_empty: "isValidSriLankanMobile (js_or x (Some [])) = isValidSriLankanMobile x"
  by (cases x) (auto simp: js_or_def isValidSriLankanMobile_def)

lemma suitable_iff:
  "suitable p =
     (10 \<le> count_or_zero (userRatingCount p) \<and> \<not> truthy (websiteUri p) \<and>
      (\<not> truthy (businessStatus p) \<or> businessStatus p = Some ''OPERATIONAL'') \<and>
      isValidSriLankanMobile (chosen_phone p))"
  unfolding suitable_def Let_def valid_or_empty by auto

lemma suitable_count: "suitable p \<Longrightarrow> \<exists>n. userRatingCount p = Some n \<and> 10 \<le> n"
  by (cases "userRatingCount p") (auto simp: suitable_iff count_or_zero_def)

lemma js_insert_insort:
  assumes "userRatingCount x \<noteq> None" "\<forall>y\<in>set ys. userRatingCount y \<noteq> None"
  shows "js_insert by_count_desc x ys = insort_key neg_count x ys"
  using assms
  by (induction ys)
     (auto simp: by_count_desc_def compare_result_def neg_count_def count_or_zero_def)

lemma js_sort_sort_key:
  assumes "\<forall>y\<in>set xs. userRatingCount y \<noteq> None"
  shows "js_sort by_count_desc xs = sort_key neg_count xs"
  using assms
proof (induction xs)
  case Nil
  then show ?case by (simp add: js_sort_def)
next
  case (Cons x xs)
  then have "js_sort by_count_desc xs = sort_key neg_count xs" by simp
  moreover have "js_sort by_count_desc (x # xs) = js_insert by_count_desc x (js_sort by_count_desc xs)"
    by (simp add: js_sort_def)
  ultimately show ?case using Cons.prems by (simp add: js_insert_insort)
qed

lemma survivors_counted:
  "\<forall>y\<in>set (map enrich (filter suitable ps)). userRatingCount y \<noteq> None"
  by (auto simp: enrich_fields dest: suitable_count)

lemma leads_sort_key:
  "filterSuitableLeads (JArray (map JPlace ps)) =
     Inr (sort_key neg_count (map enrich (filter suitable ps)))"
  by (simp only: filterSuitableLeads_places js_sort_sort_key[OF survivors_counted])

lemma sorted_desc: "sorted_wrt (\<lambda>a b. count_or_zero (userRatingCount b) \<le> count_or_zero (userRatingCount a))
   (sort_key neg_count xs)"
proof -
  have "sorted (map neg_count (sort_key neg_count xs))" by (rule sorted_sort_key)
  then show ?thesis by (simp add: sorted_map neg_count_def)
qed

lemma filter_count_enrich:
  "map place.truncate (filter (\<lambda>l. userRatingCount l = k) (map enrich xs))
     = filter (\<lambda>p. userRatingCount p = k) xs"
  by (induction xs) (simp_all add: enrich_fields truncate_enrich)

lemma stable_groups:
  "filter (\<lambda>l. userRatingCount l = Some n) (sort_key neg_count xs)
     = filter (\<lambda>l. userRatingCount l = Some n) xs"
proof -
  have "filter (\<lambda>l. userRatingCount l = Some n) (sort_key neg_count xs)
        = filter (\<lambda>l. userRatingCount l = Some n) (filter (\<lambda>l. neg_count l = - n) (sort_key neg_count xs))"
    unfolding filter_filter by (rule filter_cong) (auto simp: neg_count_def count_or_zero_def)
  also have "\<dots> = filter (\<lambda>l. userRatingCount l = Some n) (filter (\<lambda>l. neg_count l = - n) xs)"
    by (simp only: sort_key_stable)
  also have "\<dots> = filter (\<lambda>l. userRatingCount l = Some n) xs"
    unfolding filter_filter by (rule filter_cong) (auto simp: neg_count_def count_or_zero_def)
  finally show ?thesis .
qed

lemma map_truncate_enrich: "map place.truncate (map enrich ys) = ys"
  by (induction ys) (simp_all add: truncate_enrich)

lemma mset_map_sort_key: "mset (map f (sort_key k xs)) = mset (map f xs)"
  by simp

lemma format_nonempty: "s \<noteq> [] \<Longrightarrow> formatPhoneForWhatsApp (Some s) \<noteq> []"
  by (auto simp: formatPhoneForWhatsApp_def Let_def startsWith_def)

lemma valid_truthy: "isValidSriLankanMobile x \<Longrightarrow> truthy x"
  by (cases x) (auto simp: isValidSriLankanMobile_def split: if_splits)

lemma suitable_enrich:
  assumes "suitable p"
  shows "\<not> truthy (websiteUri (enrich p)) \<and>
         (\<exists>n. userRatingCount (enrich p) = Some n \<and> 10 \<le> n) \<and>
         isValidSriLankanMobile (chosen_phone (enrich p)) \<and>
         formattedWhatsapp (enrich p) = formatPhoneForWhatsApp (chosen_phone (enrich p)) \<and>
         formattedWhatsapp (enrich p) \<noteq> []"
proof -
  from assms have v: "isValidSriLankanMobile (chosen_phone p)" by (simp add: suitable_iff)
  then obtain s where s: "chosen_phone p = Some s" "s \<noteq> []"
    by (cases "chosen_phone p") (auto dest: valid_truthy)
  from assms have w: "\<not> truthy (websiteUri p)" by (simp add: suitable_iff)
  show ?thesis
    using v w s suitable_count[OF assms] by (simp add: enrich_fields format_nonempty)
qed

lemma set_leads:
  "filterSuitableLeads (JArray (map JPlace ps)) = Inr out \<Longrightarrow>
     set out = enrich ` {p \<in> set ps. suitable p}"
  by (auto simp only: leads_sort_key sum.inject set_sort set_map set_filter)

lemma enrich_inj: "enrich p = enrich q \<Longrightarrow> p = q"
  by (metis truncate_enrich)

subsection \<open>The claims on the output\<close>

text \<open>
  C3. For every array of place records the call returns, and every element of the
  output has an absent or empty \<open>websiteUri\<close>, a \<open>userRatingCount\<close> of at least
  10, and a non-empty \<open>formattedWhatsapp\<close> that is \<^const>\<open>formatPhoneForWhatsApp\<close>
  of the phone string the filter validated, which \<^const>\<open>isValidSriLankanMobile\<close>
  accepts.
\<close>

theorem qualified_lead_invariant:
  "\<exists>out. filterSuitableLeads (JArray (map JPlace ps)) = Inr out \<and>
     list_all (\<lambda>l. \<not> truthy (websiteUri l) \<and>
                   (\<exists>n. userRatingCount l = Some n \<and> 10 \<le> n) \<and>
                   isValidSriLankanMobile (chosen_phone l) \<and>
                   formattedWhatsapp l = formatPhoneForWhatsApp (chosen_phone l) \<and>
                   formattedWhatsapp l \<noteq> []) out"
  (is "\<exists>out. _ = Inr out \<and> list_all ?P out")
proof -
  have "?P l" if "l \<in> set (sort_key neg_count (map enrich (filter suitable ps)))" for l
  proof -
    from that obtain p where "l = enrich p" "suitable p" by auto
    then show ?thesis using suitable_enrich[of p] by blast
  qed
  then have "list_all ?P (sort_key neg_count (map enrich (filter suitable ps)))"
    unfolding list_all_iff by blast
  then show ?thesis by (simp only: leads_sort_key sum.inject ex_simps simp_thms)
qed

text \<open>
  Of the landline-first business and the cafe only the cafe survives, and it meets the
  invariant.
\<close>

theorem qualified_lead_invariant_witness:
  "\<exists>out. filterSuitableLeads (JArray (map JPlace [landline_first, cafe])) = Inr out \<and>
     out = [enrich cafe] \<and>
     list_all (\<lambda>l. \<not> truthy (websiteUri l) \<and>
                   (\<exists>n. userRatingCount l = Some n \<and> 10 \<le> n) \<and>
                   isValidSriLankanMobile (chosen_phone l) \<and>
                   formattedWhatsapp l = formatPhoneForWhatsApp (chosen_phone l) \<and>
                   formattedWhatsapp l \<noteq> []) out"
proof -
  have "filterSuitableLeads (JArray (map JPlace [landline_first, cafe])) = Inr [enrich cafe]"
    by code_simp
  with qualified_lead_invariant [of "[landline_first, cafe]"] show ?thesis by auto
qed

text \<open>
  C5. For every array of place records the output is sorted by descending
  \<open>userRatingCount\<close>, and the sort is stable: for every count, the output elements
  with that count are, in order, the surviving input records with that count.
\<close>

theorem leads_sorted_stable:
  "\<exists>out. filterSuitableLeads (JArray (map JPlace ps)) = Inr out \<and>
     sorted_wrt (\<lambda>a b. count_or_zero (userRatingCount b) \<le> count_or_zero (userRatingCount a)) out \<and>
     (\<forall>n. map place.truncate (filter (\<lambda>l. userRatingCount l = Some n) out)
            = filter (\<lambda>p. userRatingCount p = Some n) (filter suitable ps))"
  by (simp only: leads_sort_key sum.inject ex_simps simp_thms sorted_desc stable_groups filter_count_enrich)

text \<open>
  The salon and the bakery both have 20 reviews and the cafe 120: the cafe comes first,
  then the salon and the bakery in their input order.
\<close>

theorem leads_sorted_stable_witness:
  "\<exists>out. filterSuitableLeads (JArray (map JPlace [salon, cafe, bakery])) = Inr out \<and>
     out = [enrich cafe, enrich salon, enrich bakery] \<and>
     sorted_wrt (\<lambda>a b. count_or_zero (userRatingCount b) \<le> count_or_zero (userRatingCount a)) out \<and>
     map place.truncate (filter (\<lambda>l. userRatingCount l = Some 20) out) = [salon, bakery]"
proof -
  have o: "filterSuitableLeads (JArray (map JPlace [salon, cafe, bakery]))
        = Inr [enrich cafe, enrich salon, enrich bakery]"
    by code_simp
  have s: "filter (\<lambda>p. userRatingCount p = Some 20) (filter suitable [salon, cafe, bakery]) = [salon, bakery]"
    by code_simp
  from leads_sorted_stable [of "[salon, cafe, bakery]"] o s show ?thesis by (auto simp only: sum.inject)
qed

text \<open>
  C10. For every array of place records, the output elements stripped of the two
  derived fields are exactly the surviving input records (as a multiset: each survivor
  once, with every original field unchanged), and each output element is its original
  record extended by \<open>leadScore\<close> and \<open>formattedWhatsapp\<close> and nothing else.
\<close>

theorem enrichment_keeps_fields:
  "\<exists>out. filterSuitableLeads (JArray (map JPlace ps)) = Inr out \<and>
     mset (map place.truncate out) = mset (filter suitable ps) \<and>
     list_all (\<lambda>l. l = enrich (place.truncate l)) out"
proof -
  let ?xs = "map enrich (filter suitable ps)"
  have "mset (map place.truncate (sort_key neg_count ?xs)) = mset (map place.truncate ?xs)"
    by (rule mset_map_sort_key)
  then have a: "mset (map place.truncate (sort_key neg_count ?xs)) = mset (filter suitable ps)"
    by (simp only: map_truncate_enrich)
  have b: "list_all (\<lambda>l. l = enrich (place.truncate l)) (sort_key neg_count ?xs)"
    by (auto simp: list_all_iff truncate_enrich)
  show ?thesis using a b by (simp only: leads_sort_key sum.inject ex_simps simp_thms)
qed

text \<open>
  The salon and the cafe survive and are carried unchanged.
\<close>

theorem enrichment_keeps_fields_witness:
  "\<exists>out. filterSuitableLeads (JArray (map JPlace [salon, landline_first, cafe])) = Inr out \<and>
     out = [enrich cafe, enrich salon] \<and>
     mset (map place.truncate out) = {#salon, cafe#} \<and>
     list_all (\<lambda>l. l = enrich (place.truncate l)) out"
proof -
  have o: "filterSuitableLeads (JArray (map JPlace [salon, landline_first, cafe]))
        = Inr [enrich cafe, enrich salon]"
    by code_simp
  have s: "filter suitable [salon, landline_first, cafe] = [salon, cafe]"
    by code_simp
  from enrichment_keeps_fields [of "[salon, landline_first, cafe]"] o s show ?thesis by (auto simp only: sum.inject mset.simps)
qed

subsection \<open>The phone predicate\<close>

text \<open>
  C1, as the code has it. The filter validates one phone string: the national one when
  it is present and non-empty, otherwise the international one. For every record of the
  input that meets the review-count, website and operating-status predicates, the
  record appears in the output exactly when that string passes
  \<^const>\<open>isValidSriLankanMobile\<close>; a record whose national string passes appears
  normalized from the national string, and a record whose national string is absent or
  empty and whose international string passes appears normalized from the
  international string.
\<close>

theorem phone_predicate_first_available:
  assumes "p \<in> set ps"
    and "10 \<le> count_or_zero (userRatingCount p)"
    and "\<not> truthy (websiteUri p)"
    and "\<not> truthy (businessStatus p) \<or> businessStatus p = Some ''OPERATIONAL''"
  shows "\<exists>out. filterSuitableLeads (JArray (map JPlace ps)) = Inr out \<and>
     (enrich p \<in> set out) = isValidSriLankanMobile (chosen_phone p) \<and>
     (isValidSriLankanMobile (nationalPhoneNumber p) \<longrightarrow>
        (\<exists>l \<in> set out. place.truncate l = p \<and>
           formattedWhatsapp l = formatPhoneForWhatsApp (nationalPhoneNumber p))) \<and>
     (\<not> truthy (nationalPhoneNumber p) \<and> isValidSriLankanMobile (internationalPhoneNumber p) \<longrightarrow>
        (\<exists>l \<in> set out. place.truncate l = p \<and>
           formattedWhatsapp l = formatPhoneForWhatsApp (internationalPhoneNumber p)))"
proof -
  obtain out where out: "filterSuitableLeads (JArray (map JPlace ps)) = Inr out"
    by (simp add: leads_sort_key)
  have mem: "(enrich p \<in> set out) = suitable p"
    using assms(1) by (auto simp: set_leads[OF out] dest: enrich_inj)
  have suit: "suitable p = isValidSriLankanMobile (chosen_phone p)"
    using assms by (simp add: suitable_iff)
  have nat: "\<exists>l \<in> set out. place.truncate l = p \<and>
           formattedWhatsapp l = formatPhoneForWhatsApp (nationalPhoneNumber p)"
    if v: "isValidSriLankanMobile (nationalPhoneNumber p)"
  proof -
    from v have c: "chosen_phone p = nationalPhoneNumber p"
      by (simp add: chosen_phone_def js_or_def valid_truthy)
    with v mem suit have "enrich p \<in> set out" by simp
    then show ?thesis using c by (auto simp: truncate_enrich enrich_fields intro!: bexI[of _ "enrich p"])
  qed
  have int: "\<exists>l \<in> set out. place.truncate l = p \<and>
           formattedWhatsapp l = formatPhoneForWhatsApp (internationalPhoneNumber p)"
    if n: "\<not> truthy (nationalPhoneNumber p)" and v: "isValidSriLankanMobile (internationalPhoneNumber p)"
  proof -
    from n have c: "chosen_phone p = internationalPhoneNumber p"
      by (simp add: chosen_phone_def js_or_def)
    with v mem suit have "enrich p \<in> set out" by simp
    then show ?thesis using c by (auto simp: truncate_enrich enrich_fields intro!: bexI[of _ "enrich p"])
  qed
  show ?thesis using out mem suit nat int by blast
qed

text \<open>
  The salon has no national phone string and a valid international one: it is in the
  output, normalized from the international string.
\<close>

theorem phone_predicate_first_available_witness:
  "salon \<in> set [cafe, salon] \<and>
   10 \<le> count_or_zero (userRatingCount salon) \<and>
   \<not> truthy (websiteUri salon) \<and>
   businessStatus salon = Some ''OPERATIONAL'' \<and>
   \<not> truthy (nationalPhoneNumber salon) \<and>
   isValidSriLankanMobile (internationalPhoneNumber salon) \<and>
   (\<exists>out. filterSuitableLeads (JArray (map JPlace [cafe, salon])) = Inr out \<and>
      enrich salon \<in> set out \<and>
      (\<exists>l. l \<in> set out \<and> place.truncate l = salon \<and> formattedWhatsapp l = ''94711111111''))"
proof -
  have h1: "salon \<in> set [cafe, salon]" by simp
  have h2: "10 \<le> count_or_zero (userRatingCount salon)" by code_simp
  have h3: "\<not> truthy (websiteUri salon)" by code_simp
  have h4: "businessStatus salon = Some ''OPERATIONAL''" by code_simp
  have h5: "\<not> truthy (nationalPhoneNumber salon)" by code_simp
  have h6: "isValidSriLankanMobile (internationalPhoneNumber salon)" by code_simp
  have f: "formatPhoneForWhatsApp (internationalPhoneNumber salon) = ''94711111111''" by code_simp
  have c: "chosen_phone salon = internationalPhoneNumber salon" by code_simp
  from phone_predicate_first_available [OF h1 h2 h3 disjI2 [OF h4]] h5 h6 f c h1 h2 h3 h4 show ?thesis
    by (auto simp only: simp_thms)
qed

text \<open>
  The claim as stated fails: a record that meets the other three predicates, whose national
  string is a landline number and whose international string is a valid mobile number,
  is not in the output.
\<close>

theorem landline_first_is_excluded:
  "nationalPhoneNumber landline_first = Some ''011 234 5678'' \<and>
   internationalPhoneNumber landline_first = Some ''+94 77 123 4567'' \<and>
   10 \<le> count_or_zero (userRatingCount landline_first) \<and>
   \<not> truthy (websiteUri landline_first) \<and>
   businessStatus landline_first = Some ''OPERATIONAL'' \<and>
   \<not> isValidSriLankanMobile (nationalPhoneNumber landline_first) \<and>
   isValidSriLankanMobile (internationalPhoneNumber landline_first) \<and>
   filterSuitableLeads (JArray [JPlace landline_first]) = Inr []"
  by code_simp

subsection \<open>Totality\<close>

lemma non_array: "(\<forall>vs. v \<noteq> JArray vs) \<Longrightarrow> filterSuitableLeads v = Inr []"
  by (cases v) (simp_all add: filterSuitableLeads_def)

lemma filter_elements_total:
  "JUndefined \<notin> set vs \<Longrightarrow> JNull \<notin> set vs \<Longrightarrow> \<exists>ps. filter_elements vs = Inr ps"
proof (induction vs)
  case Nil
  then show ?case by simp
next
  case (Cons v vs)
  then obtain ps where ps: "filter_elements vs = Inr ps" by auto
  from Cons.prems have "v \<noteq> JUndefined" "v \<noteq> JNull" by auto
  then obtain k where "keep_element v = Inr k" by (cases v) auto
  with ps show ?case by simp
qed

text \<open>
  C9, as the code has it. Called with any value that is not an array,
  \<^const>\<open>filterSuitableLeads\<close> returns the empty sequence without raising; called
  with an array that holds no \<^verbatim>\<open>null\<close> and no \<^verbatim>\<open>undefined\<close> element, it
  returns a sequence.
\<close>

theorem filterSuitableLeads_returns:
  "((\<forall>vs. v \<noteq> JArray vs) \<longrightarrow> filterSuitableLeads v = Inr []) \<and>
   (JUndefined \<notin> set vs \<and> JNull \<notin> set vs \<longrightarrow> (\<exists>out. filterSuitableLeads (JArray vs) = Inr out))"
proof (intro conjI impI)
  assume "\<forall>vs. v \<noteq> JArray vs"
  then show "filterSuitableLeads v = Inr []" by (rule non_array)
next
  assume "JUndefined \<notin> set vs \<and> JNull \<notin> set vs"
  then obtain ps where "filter_elements vs = Inr ps" using filter_elements_total by blast
  then show "\<exists>out. filterSuitableLeads (JArray vs) = Inr out"
    by (simp add: filterSuitableLeads_def)
qed

text \<open>
  \<^verbatim>\<open>null\<close>, a string and a single place object give the empty sequence; an array
  of a string, a number and a place returns.
\<close>

theorem filterSuitableLeads_returns_witness:
  "filterSuitableLeads JNull = Inr [] \<and> filterSuitableLeads (JStr ''cafe'') = Inr [] \<and>
   filterSuitableLeads (JPlace cafe) = Inr [] \<and>
   (\<exists>out. filterSuitableLeads (JArray [JStr ''cafe'', JNum 7, JPlace cafe]) = Inr out)"
  using filterSuitableLeads_returns [of JNull "[JStr ''cafe'', JNum 7, JPlace cafe]"] filterSuitableLeads_returns [of "JStr ''cafe''" "[]"]
    filterSuitableLeads_returns [of "JPlace cafe" "[]"]
  by simp

text \<open>
  The claim as stated fails: on the array \<^verbatim>\<open>[null]\<close> the filter callback reads a property
  of \<^verbatim>\<open>null\<close> and the call raises a TypeError.
\<close>

theorem null_element_raises: "filterSuitableLeads (JArray [JNull]) = Inl TypeError"
  by (simp add: filterSuitableLeads_def)

section \<open>Pagination\<close>

lemma handleResults_ok_pages:
  "list_all (\<lambda>r. page_status r = OK \<and> hasNextPage r) pre \<Longrightarrow>
     handleResults acc (pre @ rest) = handleResults (acc @ concat (map results pre)) rest"
  by (induction pre arbitrary: acc) (simp_all add: Let_def)

text \<open>
  C7. After any number of pages with status OK and a next page, a page with status
  ZERO_RESULTS resolves the promise with exactly the results accumulated so far, and a
  page with any status other than OK and ZERO_RESULTS rejects it with an error that
  carries the status code and none of the accumulated results; the pages that follow
  are not looked at.
\<close>

theorem pagination_end_and_failure:
  assumes "list_all (\<lambda>r. page_status r = OK \<and> hasNextPage r) pre"
  shows "(page_status r = ZERO_RESULTS \<longrightarrow>
            fetchAllPages (pre @ r # rest) = Resolved (concat (map results pre))) \<and>
         (page_status r \<noteq> OK \<and> page_status r \<noteq> ZERO_RESULTS \<longrightarrow>
            fetchAllPages (pre @ r # rest)
              = Rejected (''Places API Error: '' @ status_code (page_status r)))"
  unfolding fetchAllPages_def handleResults_ok_pages[OF assms] by simp

text \<open>
  One page of two results followed by a ZERO_RESULTS page resolves with the two
  results; followed by an OVER_QUERY_LIMIT page it rejects with that code.
\<close>

theorem pagination_end_and_failure_witness:
  "fetchAllPages [\<lparr>results = [1, 2 :: nat], page_status = OK, hasNextPage = True\<rparr>,
                  \<lparr>results = [], page_status = ZERO_RESULTS, hasNextPage = False\<rparr>]
     = Resolved [1, 2] \<and>
   fetchAllPages [\<lparr>results = [1, 2 :: nat], page_status = OK, hasNextPage = True\<rparr>,
                  \<lparr>results = [3], page_status = OVER_QUERY_LIMIT, hasNextPage = True\<rparr>,
                  \<lparr>results = [4], page_status = OK, hasNextPage = False\<rparr>]
     = Rejected ''Places API Error: OVER_QUERY_LIMIT''"
proof -
  have h: "list_all (\<lambda>r. page_status r = OK \<and> hasNextPage r)
             [\<lparr>results = [1, 2 :: nat], page_status = OK, hasNextPage = True\<rparr>]"
    by simp
  from pagination_end_and_failure [OF h, of "\<lparr>results = [], page_status = ZERO_RESULTS, hasNextPage = False\<rparr>" "[]"]
    pagination_end_and_failure [OF h, of "\<lparr>results = [3], page_status = OVER_QUERY_LIMIT, hasNextPage = True\<rparr>"
          "[\<lparr>results = [4], page_status = OK, hasNextPage = False\<rparr>]"]
  show ?thesis by simp
qed

end
